theory Spec2Isabelle
  imports Main "HOL-Library.Word" "HOL-Library.Sublist"
begin

section \<open>Strings and values of the JavaScript runtime\<close>

text \<open>
  A JavaScript string is a sequence of UTF-16 code units. String literals of the source
  are ASCII; \<open>lit\<close> turns an ASCII literal into its code units.
\<close>

type_synonym code_unit = "16 word"
type_synonym jsstring = "code_unit list"

definition lit :: "string \<Rightarrow> jsstring" where
  "lit s = map of_char s"

text \<open>
  The values that reach \<open>slugify\<close> and the statement parameters: a property read from
  the parsed request body is \<open>undefined\<close> when it is missing, and otherwise \<open>null\<close> or a
  string. (Numbers, booleans, arrays and objects in the place of a title are outside this
  model; the declared parameter type of \<open>slugify\<close> is \<open>string\<close>.)
\<close>

datatype jsval = JUndefined | JNull | JStr jsstring

text \<open>The test \<^verbatim>\<open>!str\<close>: \<open>undefined\<close>, \<open>null\<close> and the empty string are falsy.\<close>

fun falsy :: "jsval \<Rightarrow> bool" where
  "falsy JUndefined = True"
| "falsy JNull = True"
| "falsy (JStr s) = (s = [])"

section \<open>The slug generator\<close>

abbreviation hyphen :: code_unit where
  "hyphen \<equiv> 0x2D"

text \<open>
  The class \<^verbatim>\<open>\s\<close> of a regular expression and the characters removed by
  \<^verbatim>\<open>String.prototype.trim\<close> are the same set: WhiteSpace and LineTerminator of
  ECMAScript.
\<close>

definition isWhiteSpace :: "code_unit \<Rightarrow> bool" where
  "isWhiteSpace c \<longleftrightarrow>
     c \<in> set [0x9, 0xA, 0xB, 0xC, 0xD, 0x20, 0xA0, 0x1680, 0x2028, 0x2029,
                0x202F, 0x205F, 0x3000, 0xFEFF]
     \<or> (0x2000 \<le> c \<and> c \<le> 0x200A)"

definition isUpper :: "code_unit \<Rightarrow> bool" where
  "isUpper c \<longleftrightarrow> 0x41 \<le> c \<and> c \<le> 0x5A"

text \<open>The class \<^verbatim>\<open>\w\<close> (no \<^verbatim>\<open>u\<close> or \<^verbatim>\<open>i\<close> flag): \<^verbatim>\<open>[A-Za-z0-9_]\<close>.\<close>

definition isWordChar :: "code_unit \<Rightarrow> bool" where
  "isWordChar c \<longleftrightarrow>
     (0x30 \<le> c \<and> c \<le> 0x39) \<or> isUpper c \<or> c = 0x5F \<or> (0x61 \<le> c \<and> c \<le> 0x7A)"

text \<open>\<^verbatim>\<open>.trim()\<close>: white space is removed from the start, then from the end.\<close>

definition trim :: "jsstring \<Rightarrow> jsstring" where
  "trim s = rev (dropWhile isWhiteSpace (rev (dropWhile isWhiteSpace s)))"

text \<open>
  \<^verbatim>\<open>.toLowerCase()\<close>. The Unicode lower-case mapping is given here for every code unit
  whose image contains a code unit below \<open>0x80\<close>: the letters \<open>A\<close> to \<open>Z\<close>, the Kelvin
  sign \<open>U+212A\<close> (to \<open>k\<close>) and the dotted capital I \<open>U+0130\<close> (to \<open>i\<close>, \<open>U+0307\<close>). Every
  other code unit is left as it is: ECMAScript maps a code unit of \<open>0x80\<close> or more, these
  two apart, to code units of \<open>0x80\<close> or more that are not white space, so that the
  difference is confined to code units which the step \<^verbatim>\<open>[^\w\-]+\<close> of \<open>slugify\<close>
  removes, and the slug is the one ECMAScript computes.
\<close>

definition lower_unit :: "code_unit \<Rightarrow> jsstring" where
  "lower_unit c =
     (if isUpper c then [c + 0x20]
      else if c = 0x212A then [0x6B]
      else if c = 0x130 then [0x69, 0x307]
      else [c])"

definition toLowerCase :: "jsstring \<Rightarrow> jsstring" where
  "toLowerCase s = concat (map lower_unit s)"

text \<open>
  \<^verbatim>\<open>s.replace(/X{k,}/g, r)\<close> for a character class \<open>X\<close> (the predicate \<open>P\<close>): the
  matcher scans from the left; at a character of the class it takes the whole run
  (the quantifier is greedy) and replaces it by \<open>r\<close> when the run has at least \<open>k\<close>
  characters; a shorter run matches nowhere and is copied.
\<close>

function replaceRuns ::
  "(code_unit \<Rightarrow> bool) \<Rightarrow> nat \<Rightarrow> jsstring \<Rightarrow> jsstring \<Rightarrow> jsstring" where
  "replaceRuns P k r [] = []"
| "replaceRuns P k r (c # cs) =
     (if P c
      then (if k \<le> Suc (length (takeWhile P cs)) then r else c # takeWhile P cs)
             @ replaceRuns P k r (dropWhile P cs)
      else c # replaceRuns P k r cs)"
  by pat_completeness auto
termination
  by (relation "measure (\<lambda>(P, k, r, s). length s)")
     (auto simp: le_imp_less_Suc length_dropWhile_le)

text \<open>\<^verbatim>\<open>.replace(/\s+/g, '-')\<close>\<close>

definition replace_whitespace :: "jsstring \<Rightarrow> jsstring" where
  "replace_whitespace s = replaceRuns isWhiteSpace 1 [hyphen] s"

text \<open>\<^verbatim>\<open>.replace(/[^\w\-]+/g, '')\<close>\<close>

definition remove_nonword :: "jsstring \<Rightarrow> jsstring" where
  "remove_nonword s = replaceRuns (\<lambda>c. \<not> (isWordChar c \<or> c = hyphen)) 1 [] s"

text \<open>\<^verbatim>\<open>.replace(/\-\-+/g, '-')\<close>\<close>

definition collapse_hyphens :: "jsstring \<Rightarrow> jsstring" where
  "collapse_hyphens s = replaceRuns (\<lambda>c. c = hyphen) 2 [hyphen] s"

text \<open>\<^verbatim>\<open>.replace(/^-+/, '')\<close>: one match at most, anchored at the start.\<close>

definition strip_leading_hyphens :: "jsstring \<Rightarrow> jsstring" where
  "strip_leading_hyphens s = dropWhile (\<lambda>c. c = hyphen) s"

text \<open>\<^verbatim>\<open>.replace(/-+$/, '')\<close>: the leftmost match is the whole final run of hyphens.\<close>

definition strip_trailing_hyphens :: "jsstring \<Rightarrow> jsstring" where
  "strip_trailing_hyphens s = rev (dropWhile (\<lambda>c. c = hyphen) (rev s))"

text \<open>
  The chain of string methods of the return statement, lines 51 to 59.
  \<^verbatim>\<open>.toString()\<close> of a string is the string.
\<close>

definition slug_chain :: "jsstring \<Rightarrow> jsstring" where
  "slug_chain s =
     strip_trailing_hyphens (strip_leading_hyphens (collapse_hyphens
       (remove_nonword (replace_whitespace (toLowerCase (trim s))))))"

text \<open>
  \<open>slugify\<close>, lines 46 to 60. The values \<open>undefined\<close> and \<open>null\<close> are falsy and
  return at the guard, so the chain only ever runs on a non-empty string.
\<close>

definition slugify :: "jsval \<Rightarrow> jsstring" where
  "slugify str =
     (if falsy str then []
      else case str of JStr s \<Rightarrow> slug_chain s | _ \<Rightarrow> [])"

text \<open>The characters of a slug: a lower-case letter, a digit, the underscore, the hyphen.\<close>

definition is_slug_char :: "code_unit \<Rightarrow> bool" where
  "is_slug_char c \<longleftrightarrow>
     (0x61 \<le> c \<and> c \<le> 0x7A) \<or> (0x30 \<le> c \<and> c \<le> 0x39) \<or> c = 0x5F \<or> c = hyphen"

subsection \<open>The algorithm as the specification words it\<close>

text \<open>
  The seven steps of section 4.1 of the specification, each written from its sentence and
  not from the regular expression of the source: stripping at the end by a recursion from
  the right, a run of white space by keeping one hyphen for its last character, the
  removal as a filter, the collapse by dropping a hyphen that another hyphen follows.
\<close>

fun strip_end :: "(code_unit \<Rightarrow> bool) \<Rightarrow> jsstring \<Rightarrow> jsstring" where
  "strip_end P [] = []"
| "strip_end P (c # cs) = (let t = strip_end P cs in if t = [] \<and> P c then [] else c # t)"

fun one_per_run :: "(code_unit \<Rightarrow> bool) \<Rightarrow> code_unit \<Rightarrow> jsstring \<Rightarrow> jsstring" where
  "one_per_run P h [] = []"
| "one_per_run P h [c] = (if P c then [h] else [c])"
| "one_per_run P h (c # d # cs) =
     (if P c then (if P d then one_per_run P h (d # cs) else h # one_per_run P h (d # cs))
      else c # one_per_run P h (d # cs))"

fun spec_collapse :: "jsstring \<Rightarrow> jsstring" where
  "spec_collapse [] = []"
| "spec_collapse [c] = [c]"
| "spec_collapse (c # d # cs) =
     (if c = hyphen \<and> d = hyphen then spec_collapse (d # cs) else c # spec_collapse (d # cs))"

definition slugify_spec :: "jsval \<Rightarrow> jsstring" where
  "slugify_spec str =
     (case str of
        JStr s \<Rightarrow>
          if s = [] then []
          else
            let s2 = toLowerCase (strip_end isWhiteSpace (dropWhile isWhiteSpace s));
                s3 = one_per_run isWhiteSpace hyphen s2;
                s4 = filter (\<lambda>c. isWordChar c \<or> c = hyphen) s3;
                s5 = spec_collapse s4;
                s6 = dropWhile (\<lambda>c. c = hyphen) s5;
                s7 = strip_end (\<lambda>c. c = hyphen) s6
            in s7
      | _ \<Rightarrow> [])"

section \<open>The database and its driver\<close>

text \<open>
  A row of either table, with the four columns the specification names. The schema is not
  part of the repository: \<open>title\<close> and \<open>content\<close> are kept nullable (\<open>None\<close> is SQL
  \<open>NULL\<close>), and every constraint of the schema is left to the environment, which may
  reject any statement (\<open>query_error\<close> below).
\<close>

record row =
  slug :: jsstring
  title :: "jsstring option"
  content :: "jsstring option"
  created_date :: nat

datatype resource = Posts | Drafts

text \<open>
  The eight statements of the source, by table, with their positional parameters in the
  order of the source. The slug parameter is a string in every call (the result of
  \<open>slugify\<close>, or the path parameter); title and content are whatever the body holds.
\<close>

datatype statement =
    SelectAll resource
  | InsertRow resource jsstring jsval jsval
  | UpdateRow resource jsval jsval jsstring
  | DeleteRow resource jsstring

text \<open>An error object: its message, and everything else it carries (stack, codes).\<close>

record js_error =
  message :: jsstring
  stack :: jsstring

datatype event = Connected nat | Queried nat statement | Ended nat

text \<open>
  The state outside the process: the two tables, the connections that are open (by
  client number), the number of the next client, and the log of what the process has
  done to the database, oldest first.
\<close>

record world =
  posts :: "row list"
  drafts :: "row list"
  live :: "nat list"
  fresh :: nat
  trace :: "event list"

text \<open>
  What the outside does during one request: whether \<^verbatim>\<open>client.connect()\<close> (or reading
  the certificate) throws, whether \<^verbatim>\<open>client.query()\<close> throws, and the time the server
  stamps on an inserted row.
\<close>

record env =
  connect_error :: "js_error option"
  query_error :: "js_error option"
  now :: nat

fun table :: "resource \<Rightarrow> world \<Rightarrow> row list" where
  "table Posts w = posts w"
| "table Drafts w = drafts w"

fun set_table :: "resource \<Rightarrow> row list \<Rightarrow> world \<Rightarrow> world" where
  "set_table Posts rs w = w\<lparr>posts := rs\<rparr>"
| "set_table Drafts rs w = w\<lparr>drafts := rs\<rparr>"

text \<open>The driver sends \<open>undefined\<close> and \<open>null\<close> as SQL \<open>NULL\<close>.\<close>

fun prepareValue :: "jsval \<Rightarrow> jsstring option" where
  "prepareValue JUndefined = None"
| "prepareValue JNull = None"
| "prepareValue (JStr s) = Some s"

text \<open>
  The meaning of the four SQL statements, each with \<^verbatim>\<open>RETURNING *\<close> where the source
  has it: the rows returned, and the state after. \<^verbatim>\<open>ORDER BY created_date DESC\<close>
  leaves the order of rows of equal date open; the model returns one such order.
  \<open>overwrite\<close> is the \<^verbatim>\<open>SET title = $1, content = $2 WHERE slug = $3\<close> of one row.
\<close>

abbreviation overwrite :: "jsval \<Rightarrow> jsval \<Rightarrow> jsstring \<Rightarrow> row \<Rightarrow> row" where
  "overwrite ti co s \<equiv>
     (\<lambda>x. if slug x = s then x\<lparr>title := prepareValue ti, content := prepareValue co\<rparr> else x)"

fun exec :: "statement \<Rightarrow> nat \<Rightarrow> world \<Rightarrow> row list \<times> world" where
  "exec (SelectAll r) t w = (rev (sort_key created_date (table r w)), w)"
| "exec (InsertRow r s ti co) t w =
     (let new = \<lparr>slug = s, title = prepareValue ti, content = prepareValue co,
                 created_date = t\<rparr>
      in ([new], set_table r (table r w @ [new]) w))"
| "exec (UpdateRow r ti co s) t w =
     (let rows = map (overwrite ti co s) (table r w)
      in (filter (\<lambda>x. slug x = s) rows, set_table r rows w))"
| "exec (DeleteRow r s) t w =
     (filter (\<lambda>x. slug x = s) (table r w),
      set_table r (filter (\<lambda>x. slug x \<noteq> s) (table r w)) w)"

text \<open>
  The two errors that do not come from the database: calling \<^verbatim>\<open>query\<close> on
  \<open>undefined\<close> (the message is the one of the runtime), and the driver's own refusal of a
  client that has been ended.
\<close>

definition undefined_client_error :: js_error where
  "undefined_client_error =
     \<lparr>message = lit ''Cannot read properties of undefined (reading '' @ [0x27]
                  @ lit ''query'' @ [0x27] @ lit '')'',
      stack = []\<rparr>"

definition closed_client_error :: js_error where
  "closed_client_error =
     \<lparr>message = lit ''Client was closed and is not queryable'', stack = []\<rparr>"

text \<open>
  \<^verbatim>\<open>client.query(text, params)\<close> on the value read from the context. The statement is
  logged when it is sent, whether or not it then fails; a failed statement changes no
  row.
\<close>

definition query ::
  "nat option \<Rightarrow> env \<Rightarrow> statement \<Rightarrow> world \<Rightarrow> (js_error + row list) \<times> world" where
  "query client e st w =
     (case client of
        None \<Rightarrow> (Inl undefined_client_error, w)
      | Some k \<Rightarrow>
          if k \<notin> set (live w) then (Inl closed_client_error, w)
          else
            let w1 = w\<lparr>trace := trace w @ [Queried k st]\<rparr> in
            (case query_error e of
               Some err \<Rightarrow> (Inl err, w1)
             | None \<Rightarrow> (case exec st (now e) w1 of (rows, w2) \<Rightarrow> (Inr rows, w2))))"

text \<open>\<open>connectToDB\<close>, lines 23 to 38, and \<open>disconnectFromDB\<close>, lines 41 to 43.\<close>

definition connectToDB :: "env \<Rightarrow> world \<Rightarrow> (js_error + nat) \<times> world" where
  "connectToDB e w =
     (case connect_error e of
        Some err \<Rightarrow> (Inl err, w)
      | None \<Rightarrow>
          (Inr (fresh w),
           w\<lparr>live := fresh w # live w, fresh := Suc (fresh w),
             trace := trace w @ [Connected (fresh w)]\<rparr>))"

definition disconnectFromDB :: "nat \<Rightarrow> world \<Rightarrow> world" where
  "disconnectFromDB client w =
     w\<lparr>live := removeAll client (live w), trace := trace w @ [Ended client]\<rparr>"

section \<open>The route handlers\<close>

text \<open>
  The context of one request holds the variable \<open>dbClient\<close>. A handler answers with
  \<^verbatim>\<open>c.json(value, status)\<close>, or, in two catch blocks, returns the result of
  \<^verbatim>\<open>c.status(500)\<close>: that call sets the status of the context and returns nothing, so
  the handler hands no response object and no body to the framework.
\<close>

record ctx =
  dbClient :: "nat option"

datatype json =
    JRows "row list"
  | JRow row
  | JNothing
  | JObject "(string \<times> jsstring) list"

datatype response =
    Json json nat
  | StatusOnly nat
  | NotFound

text \<open>
  The body of the request as the handler sees it: \<^verbatim>\<open>await c.req.json()\<close> and the
  destructuring either throw, or bind \<open>title\<close> and \<open>content\<close> (each \<open>undefined\<close> when the
  body lacks it).
\<close>

type_synonym body = "js_error + (jsval \<times> jsval)"

text \<open>\<^verbatim>\<open>result.rows[0]\<close>: \<open>undefined\<close> when there is no row.\<close>

fun first_row :: "row list \<Rightarrow> json" where
  "first_row [] = JNothing"
| "first_row (x # xs) = JRow x"

text \<open>
  The handlers of the two tables are the same text up to the name of the table and the
  word \<open>post\<close> or \<open>draft\<close> in the messages; the model takes the table as a parameter.
\<close>

fun Label :: "resource \<Rightarrow> string" where
  "Label Posts = ''Post''"
| "Label Drafts = ''Draft''"

fun label :: "resource \<Rightarrow> string" where
  "label Posts = ''post''"
| "label Drafts = ''draft''"

text \<open>\<^verbatim>\<open>GET /api/posts\<close>, lines 70 to 82, and \<^verbatim>\<open>GET /api/drafts\<close>, lines 150 to 162.\<close>

definition list_handler :: "resource \<Rightarrow> ctx \<Rightarrow> env \<Rightarrow> world \<Rightarrow> response \<times> world" where
  "list_handler r c e w =
     (let client = dbClient c in
      case query client e (SelectAll r) w of
        (Inr rows, w1) \<Rightarrow> (Json (JRows rows) 200, w1)
      | (Inl err, w1) \<Rightarrow> (StatusOnly 500, w1))"

text \<open>\<^verbatim>\<open>POST /api/posts\<close>, lines 84 to 99, and \<^verbatim>\<open>POST /api/drafts\<close>, lines 164 to 179.\<close>

definition create_handler ::
  "resource \<Rightarrow> ctx \<Rightarrow> body \<Rightarrow> env \<Rightarrow> world \<Rightarrow> response \<times> world" where
  "create_handler r c b e w =
     (let client = dbClient c in
      case b of
        Inl err \<Rightarrow> (StatusOnly 500, w)
      | Inr (ti, co) \<Rightarrow>
          let sl = slugify ti in
          (case query client e (InsertRow r sl ti co) w of
             (Inr rows, w1) \<Rightarrow> (Json (first_row rows) 201, w1)
           | (Inl err, w1) \<Rightarrow> (StatusOnly 500, w1)))"

text \<open>
  \<^verbatim>\<open>PUT /api/posts/:slug\<close>, lines 101 to 123, and \<^verbatim>\<open>PUT /api/drafts/:slug\<close>, lines
  181 to 203.
\<close>

definition update_failed :: "resource \<Rightarrow> js_error \<Rightarrow> response" where
  "update_failed r err =
     Json (JObject [(''error'', lit (''Failed to update '' @ label r)),
                    (''message'', message err)]) 500"

definition not_found :: "resource \<Rightarrow> response" where
  "not_found r = Json (JObject [(''error'', lit (Label r @ '' not found''))]) 404"

definition update_handler ::
  "resource \<Rightarrow> ctx \<Rightarrow> jsstring \<Rightarrow> body \<Rightarrow> env \<Rightarrow> world \<Rightarrow> response \<times> world" where
  "update_handler r c sl b e w =
     (let client = dbClient c in
      case b of
        Inl err \<Rightarrow> (update_failed r err, w)
      | Inr (ti, co) \<Rightarrow>
          (case query client e (UpdateRow r ti co sl) w of
             (Inr rows, w1) \<Rightarrow>
               if length rows = 0 then (not_found r, w1)
               else (Json (first_row rows) 201, w1)
           | (Inl err, w1) \<Rightarrow> (update_failed r err, w1)))"

text \<open>
  \<^verbatim>\<open>DELETE /api/posts/:slug\<close>, lines 125 to 148, and \<^verbatim>\<open>DELETE /api/drafts/:slug\<close>,
  lines 205 to 228.
\<close>

definition delete_failed :: "resource \<Rightarrow> js_error \<Rightarrow> response" where
  "delete_failed r err =
     Json (JObject [(''error'', lit (''Failed to delete '' @ label r)),
                    (''message'', message err)]) 500"

definition deleted :: "resource \<Rightarrow> jsstring \<Rightarrow> response" where
  "deleted r sl =
     Json (JObject [(''message'',
       lit (Label r @ '' with slug '') @ sl @ lit '' deleted successfully'')]) 201"

definition delete_handler ::
  "resource \<Rightarrow> ctx \<Rightarrow> jsstring \<Rightarrow> env \<Rightarrow> world \<Rightarrow> response \<times> world" where
  "delete_handler r c sl e w =
     (let client = dbClient c in
      case query client e (DeleteRow r sl) w of
        (Inr rows, w1) \<Rightarrow>
          if length rows = 0 then (not_found r, w1)
          else (deleted r sl, w1)
      | (Inl err, w1) \<Rightarrow> (delete_failed r err, w1))"

section \<open>The connection middleware and the application\<close>

text \<open>
  The route a request matches, with its path parameter: one of the eight registered, or
  none (the framework then answers itself; the middleware has no path and runs all the
  same). A request that the CORS middleware, registered first, answers by itself (a
  preflight \<^verbatim>\<open>OPTIONS\<close>) never reaches the database middleware and is not a
  request of this model.
\<close>

datatype route =
    GetAll resource
  | Create resource
  | Update resource jsstring
  | Delete resource jsstring
  | Unrouted

record request =
  route :: route
  body :: body

definition route_handler :: "request \<Rightarrow> ctx \<Rightarrow> env \<Rightarrow> world \<Rightarrow> response \<times> world" where
  "route_handler rq c e w =
     (case route rq of
        GetAll r \<Rightarrow> list_handler r c e w
      | Create r \<Rightarrow> create_handler r c (body rq) e w
      | Update r sl \<Rightarrow> update_handler r c sl (body rq) e w
      | Delete r sl \<Rightarrow> delete_handler r c sl e w
      | Unrouted \<Rightarrow> (NotFound, w))"

text \<open>
  The database middleware, lines 63 to 68. When \<open>connectToDB\<close> throws, the middleware
  throws before \<^verbatim>\<open>next()\<close>, and no handler runs. No handler of this application throws:
  each has its whole body in \<^verbatim>\<open>try\<close>/\<^verbatim>\<open>catch\<close>, so \<^verbatim>\<open>await next()\<close> returns.
\<close>

definition db_middleware ::
  "(ctx \<Rightarrow> world \<Rightarrow> response \<times> world) \<Rightarrow> ctx \<Rightarrow> env \<Rightarrow> world
     \<Rightarrow> (js_error + response) \<times> world" where
  "db_middleware next c e w =
     (case connectToDB e w of
        (Inl err, w1) \<Rightarrow> (Inl err, w1)
      | (Inr client, w1) \<Rightarrow>
          let c1 = c\<lparr>dbClient := Some client\<rparr> in
          (case next c1 w1 of
             (res, w2) \<Rightarrow> (Inr res, disconnectFromDB client w2)))"

definition handle_request :: "request \<Rightarrow> env \<Rightarrow> world \<Rightarrow> (js_error + response) \<times> world" where
  "handle_request rq e w =
     db_middleware (\<lambda>c. route_handler rq c e) \<lparr>dbClient = None\<rparr> e w"

text \<open>A sequence of requests, each with what the outside does during it.\<close>

fun serve_all :: "(request \<times> env) list \<Rightarrow> world \<Rightarrow> world" where
  "serve_all [] w = w"
| "serve_all ((rq, e) # rest) w = serve_all rest (snd (handle_request rq e w))"

text \<open>
  The state when the process starts, an environment in which nothing fails, and a state
  with one post, for the examples.
\<close>

definition initial_world :: world where
  "initial_world = \<lparr>posts = [], drafts = [], live = [], fresh = 0, trace = []\<rparr>"

definition no_faults :: "nat \<Rightarrow> env" where
  "no_faults t = \<lparr>connect_error = None, query_error = None, now = t\<rparr>"

definition example_world :: world where
  "example_world =
     \<lparr>posts = [\<lparr>slug = lit ''a'', title = Some (lit ''A''), content = Some (lit ''x''),
                created_date = 1\<rparr>],
      drafts = [], live = [], fresh = 0, trace = []\<rparr>"

section \<open>Properties of the slug generator\<close>

lemmas slug_defs = slugify_def slug_chain_def strip_trailing_hyphens_def strip_leading_hyphens_def
  collapse_hyphens_def remove_nonword_def replace_whitespace_def toLowerCase_def trim_def
  lower_unit_def isWordChar_def isUpper_def isWhiteSpace_def lit_def

subsection \<open>Characters\<close>

lemma upper_shift_not_upper: "isUpper c \<Longrightarrow> \<not> isUpper (c + 0x20)"
  unfolding isUpper_def by unat_arith

lemma lower_unit_no_upper: "d \<in> set (lower_unit c) \<Longrightarrow> \<not> isUpper d"
  by (auto simp: lower_unit_def upper_shift_not_upper split: if_splits)
     (simp_all add: isUpper_def)

lemma toLowerCase_no_upper: "d \<in> set (toLowerCase s) \<Longrightarrow> \<not> isUpper d"
  by (auto simp: toLowerCase_def dest: lower_unit_no_upper)

lemma set_replaceRuns: "set (replaceRuns P k r s) \<subseteq> set r \<union> set s"
proof (induction P k r s rule: replaceRuns.induct)
  case (1 P k r)
  show ?case by simp
next
  case (2 P k r c cs)
  have tw: "set (takeWhile P cs) \<subseteq> set cs" by (auto dest: set_takeWhileD)
  have dw: "set (dropWhile P cs) \<subseteq> set cs" by (auto dest: set_dropWhileD)
  show ?case
  proof (cases "P c")
    case True
    with 2 tw dw show ?thesis by auto
  next
    case False
    with 2 show ?thesis by auto
  qed
qed

lemma dropWhile_filter_not: "filter (\<lambda>c. \<not> P c) (dropWhile P xs) = filter (\<lambda>c. \<not> P c) xs"
  by (induction xs) auto

lemma replaceRuns_delete: "replaceRuns P (Suc 0) [] s = filter (\<lambda>c. \<not> P c) s"
  by (induction P "Suc 0" "[] :: jsstring" s rule: replaceRuns.induct)
     (auto simp: dropWhile_filter_not)

lemma replaceRuns_id: "\<forall>c \<in> set s. \<not> P c \<Longrightarrow> replaceRuns P k r s = s"
  by (induction s) auto

lemma remove_nonword_filter: "remove_nonword s = filter (\<lambda>c. isWordChar c \<or> c = hyphen) s"
  by (simp add: remove_nonword_def replaceRuns_delete)

lemma slug_charI: "isWordChar c \<or> c = hyphen \<Longrightarrow> \<not> isUpper c \<Longrightarrow> is_slug_char c"
  by (auto simp: isWordChar_def is_slug_char_def)

lemma slug_char_not_space: "is_slug_char c \<Longrightarrow> \<not> isWhiteSpace c"
  unfolding is_slug_char_def isWhiteSpace_def by (auto; unat_arith)

lemma slug_char_not_upper: "is_slug_char c \<Longrightarrow> \<not> isUpper c"
  unfolding is_slug_char_def isUpper_def by (auto; unat_arith)

lemma slug_char_word: "is_slug_char c \<Longrightarrow> isWordChar c \<or> c = hyphen"
  by (auto simp: isWordChar_def is_slug_char_def)

lemma prefix_single: "prefix [h] xs \<longleftrightarrow> xs \<noteq> [] \<and> hd xs = h"
  by (cases xs) auto

lemma suffix_single_rev: "suffix [h] (rev xs) \<longleftrightarrow> prefix [h] xs"
  by (simp add: suffix_to_prefix)

lemma dropWhile_no_prefix: "\<not> prefix [h] (dropWhile (\<lambda>c. c = h) xs)"
  using hd_dropWhile [of "\<lambda>c. c = h" xs] by (auto simp: prefix_single)

lemma strip_leading_no_prefix: "\<not> prefix [hyphen] (strip_leading_hyphens s)"
  by (simp add: strip_leading_hyphens_def dropWhile_no_prefix)

lemma strip_trailing_no_suffix: "\<not> suffix [hyphen] (strip_trailing_hyphens s)"
  by (simp add: strip_trailing_hyphens_def suffix_single_rev dropWhile_no_prefix)

lemma strip_trailing_prefix: "prefix (strip_trailing_hyphens s) s"
proof -
  have "suffix (dropWhile (\<lambda>c. c = hyphen) (rev s)) (rev s)"
    by (rule suffix_dropWhile)
  then show ?thesis
    by (simp add: strip_trailing_hyphens_def suffix_to_prefix)
qed

lemma strip_leading_suffix: "suffix (strip_leading_hyphens s) s"
  by (simp add: strip_leading_hyphens_def suffix_dropWhile)

lemma strip_trailing_keeps_head:
  assumes "\<not> prefix [hyphen] s"
  shows "\<not> prefix [hyphen] (strip_trailing_hyphens s)"
proof
  assume "prefix [hyphen] (strip_trailing_hyphens s)"
  then have "prefix [hyphen] s"
    using strip_trailing_prefix [of s] by (rule prefix_order.trans)
  with assms show False by simp
qed

lemma collapse_Cons_hyphen:
  "collapse_hyphens (hyphen # cs) = hyphen # collapse_hyphens (dropWhile (\<lambda>c. c = hyphen) cs)"
  by (cases "takeWhile (\<lambda>c. c = hyphen) cs") (auto simp: collapse_hyphens_def dest: set_takeWhileD)

lemma collapse_Cons_other:
  "c \<noteq> hyphen \<Longrightarrow> collapse_hyphens (c # cs) = c # collapse_hyphens cs"
  by (simp add: collapse_hyphens_def)

lemma collapse_Nil: "collapse_hyphens [] = []"
  by (simp add: collapse_hyphens_def)

lemma collapse_keeps_head:
  "\<not> prefix [hyphen] s \<Longrightarrow> \<not> prefix [hyphen] (collapse_hyphens s)"
  by (cases s) (auto simp: collapse_Nil collapse_Cons_other)

lemma collapse_no_double: "\<not> sublist [hyphen, hyphen] (collapse_hyphens s)"
proof (induction "length s" arbitrary: s rule: less_induct)
  case less
  show ?case
  proof (cases s)
    case Nil
    then show ?thesis by (simp add: collapse_Nil)
  next
    case (Cons c cs)
    show ?thesis
    proof (cases "c = hyphen")
      case True
      let ?rest = "dropWhile (\<lambda>c. c = hyphen) cs"
      have "length ?rest < length s"
        using Cons length_dropWhile_le [of "\<lambda>c. c = hyphen" cs] by simp
      then have ih: "\<not> sublist [hyphen, hyphen] (collapse_hyphens ?rest)"
        by (rule less)
      have "\<not> prefix [hyphen] (collapse_hyphens ?rest)"
        by (rule collapse_keeps_head) (rule dropWhile_no_prefix)
      with ih show ?thesis
        using Cons True by (simp add: collapse_Cons_hyphen sublist_Cons_right)
    next
      case False
      have "\<not> sublist [hyphen, hyphen] (collapse_hyphens cs)"
        using Cons by (intro less) simp
      with False show ?thesis
        using Cons by (simp add: collapse_Cons_other sublist_Cons_right)
    qed
  qed
qed

lemma set_collapse: "set (collapse_hyphens s) \<subseteq> insert hyphen (set s)"
  using set_replaceRuns [of "\<lambda>c. c = hyphen" 2 "[hyphen]" s]
  by (simp add: collapse_hyphens_def)

lemma set_replace_whitespace: "set (replace_whitespace s) \<subseteq> insert hyphen (set s)"
  using set_replaceRuns [of isWhiteSpace 1 "[hyphen]" s]
  by (simp add: replace_whitespace_def)

lemma set_strip_trailing: "set (strip_trailing_hyphens s) \<subseteq> set s"
  using set_mono_prefix [OF strip_trailing_prefix] .

lemma set_strip_leading: "set (strip_leading_hyphens s) \<subseteq> set s"
  using set_mono_suffix [OF strip_leading_suffix] .

lemma slug_chain_chars:
  assumes "c \<in> set (slug_chain s)"
  shows "is_slug_char c"
proof -
  let ?l = "toLowerCase (trim s)"
  let ?w = "replace_whitespace ?l"
  let ?n = "remove_nonword ?w"
  from assms have "c \<in> set (collapse_hyphens ?n)"
    using set_strip_trailing set_strip_leading unfolding slug_chain_def by blast
  then have "c = hyphen \<or> c \<in> set ?n"
    using set_collapse by blast
  then have "c = hyphen \<or> ((isWordChar c \<or> c = hyphen) \<and> c \<in> set ?w)"
    by (auto simp: remove_nonword_filter)
  then have "c = hyphen \<or> (isWordChar c \<and> c \<in> set ?l)"
    using set_replace_whitespace by blast
  then have "c = hyphen \<or> (isWordChar c \<and> \<not> isUpper c)"
    using toLowerCase_no_upper by blast
  then show ?thesis
    by (auto simp: isWordChar_def is_slug_char_def)
qed

lemma slug_chain_no_double: "\<not> sublist [hyphen, hyphen] (slug_chain s)"
proof
  assume a: "sublist [hyphen, hyphen] (slug_chain s)"
  let ?c = "collapse_hyphens (remove_nonword (replace_whitespace (toLowerCase (trim s))))"
  have "sublist (slug_chain s) (strip_leading_hyphens ?c)"
    unfolding slug_chain_def by (rule prefix_imp_sublist) (rule strip_trailing_prefix)
  moreover have "sublist (strip_leading_hyphens ?c) ?c"
    by (rule suffix_imp_sublist) (rule strip_leading_suffix)
  ultimately have "sublist [hyphen, hyphen] ?c"
    using a by (blast intro: sublist_order.order_trans)
  then show False by (simp add: collapse_no_double)
qed

lemma slug_chain_ends:
  "\<not> prefix [hyphen] (slug_chain s) \<and> \<not> suffix [hyphen] (slug_chain s)"
  unfolding slug_chain_def
  by (simp add: strip_trailing_no_suffix strip_trailing_keeps_head strip_leading_no_prefix)

lemma strip_end_rev: "strip_end P s = rev (dropWhile P (rev s))"
  by (induction s) (auto simp: dropWhile_append Let_def dropWhile_eq_Nil_conv)

lemma one_per_run_Cons:
  "P c \<Longrightarrow> one_per_run P h (c # cs) = h # one_per_run P h (dropWhile P cs)"
  by (induction cs arbitrary: c) auto

lemma one_per_run_other:
  "\<not> P c \<Longrightarrow> one_per_run P h (c # cs) = c # one_per_run P h cs"
  by (cases cs) auto

lemma replaceRuns_one_per_run: "replaceRuns P (Suc 0) [h] s = one_per_run P h s"
  by (induction P "Suc 0" "[h]" s rule: replaceRuns.induct)
     (auto simp: one_per_run_Cons one_per_run_other)

lemma spec_collapse_Cons_hyphen:
  "spec_collapse (hyphen # cs) = hyphen # spec_collapse (dropWhile (\<lambda>c. c = hyphen) cs)"
proof (induction cs)
  case Nil
  show ?case by simp
next
  case (Cons d ds)
  then show ?case by (cases "d = hyphen") auto
qed

lemma spec_collapse_other:
  "c \<noteq> hyphen \<Longrightarrow> spec_collapse (c # cs) = c # spec_collapse cs"
  by (cases cs) auto

lemma collapse_spec: "collapse_hyphens s = spec_collapse s"
proof (induction "length s" arbitrary: s rule: less_induct)
  case less
  show ?case
  proof (cases s)
    case Nil
    then show ?thesis by (simp add: collapse_Nil)
  next
    case (Cons c cs)
    show ?thesis
    proof (cases "c = hyphen")
      case True
      have "length (dropWhile (\<lambda>c. c = hyphen) cs) < length s"
        using Cons length_dropWhile_le [of "\<lambda>c. c = hyphen" cs] by simp
      then have "collapse_hyphens (dropWhile (\<lambda>c. c = hyphen) cs)
                 = spec_collapse (dropWhile (\<lambda>c. c = hyphen) cs)"
        by (rule less)
      then show ?thesis
        using Cons True by (simp add: collapse_Cons_hyphen spec_collapse_Cons_hyphen)
    next
      case False
      have "collapse_hyphens cs = spec_collapse cs"
        using Cons by (intro less) simp
      then show ?thesis
        using Cons False by (simp add: collapse_Cons_other spec_collapse_other)
    qed
  qed
qed

lemma slug_chain_spec:
  "slug_chain s =
     strip_end (\<lambda>c. c = hyphen) (dropWhile (\<lambda>c. c = hyphen) (spec_collapse
       (filter (\<lambda>c. isWordChar c \<or> c = hyphen) (one_per_run isWhiteSpace hyphen
         (toLowerCase (strip_end isWhiteSpace (dropWhile isWhiteSpace s)))))))"
  by (simp add: slug_chain_def strip_end_rev collapse_spec remove_nonword_filter
      replace_whitespace_def replaceRuns_one_per_run trim_def
      strip_leading_hyphens_def strip_trailing_hyphens_def)

lemma dropWhile_none: "\<forall>c \<in> set s. \<not> P c \<Longrightarrow> dropWhile P s = s"
  by (cases s) auto

lemma trim_id: "\<forall>c \<in> set s. \<not> isWhiteSpace c \<Longrightarrow> trim s = s"
  by (simp add: trim_def dropWhile_none)

lemma lower_unit_slug_char: "is_slug_char c \<Longrightarrow> lower_unit c = [c]"
  using slug_char_not_upper [of c]
  by (auto simp: lower_unit_def is_slug_char_def)

lemma toLowerCase_id: "\<forall>c \<in> set s. is_slug_char c \<Longrightarrow> toLowerCase s = s"
  by (induction s) (auto simp: toLowerCase_def lower_unit_slug_char)

lemma collapse_id: "\<not> sublist [hyphen, hyphen] s \<Longrightarrow> collapse_hyphens s = s"
proof (induction s)
  case Nil
  show ?case by (simp add: collapse_Nil)
next
  case (Cons c cs)
  then have ih: "collapse_hyphens cs = cs"
    by (simp add: sublist_Cons_right)
  show ?case
  proof (cases "c = hyphen")
    case True
    with Cons.prems have "\<not> prefix [hyphen] cs"
      by (simp add: sublist_Cons_right)
    then have "dropWhile (\<lambda>c. c = hyphen) cs = cs"
      by (cases cs) auto
    with True ih show ?thesis by (simp add: collapse_Cons_hyphen)
  next
    case False
    with ih show ?thesis by (simp add: collapse_Cons_other)
  qed
qed

lemma strip_leading_id: "\<not> prefix [hyphen] s \<Longrightarrow> strip_leading_hyphens s = s"
  by (cases s) (auto simp: strip_leading_hyphens_def)

lemma strip_trailing_id: "\<not> suffix [hyphen] s \<Longrightarrow> strip_trailing_hyphens s = s"
proof -
  assume "\<not> suffix [hyphen] s"
  then have "\<not> prefix [hyphen] (rev s)"
    by (simp add: suffix_to_prefix)
  then have "dropWhile (\<lambda>c. c = hyphen) (rev s) = rev s"
    by (cases "rev s") auto
  then show ?thesis by (simp add: strip_trailing_hyphens_def)
qed

lemma slug_chain_fixed:
  assumes chars: "\<forall>c \<in> set s. is_slug_char c"
    and nodbl: "\<not> sublist [hyphen, hyphen] s"
    and nohd: "\<not> prefix [hyphen] s"
    and nolast: "\<not> suffix [hyphen] s"
  shows "slug_chain s = s"
proof -
  from chars have ws: "\<forall>c \<in> set s. \<not> isWhiteSpace c"
    by (blast dest: slug_char_not_space)
  from chars have wd: "\<forall>c \<in> set s. isWordChar c \<or> c = hyphen"
    by (blast dest: slug_char_word)
  have 1: "trim s = s" using ws by (rule trim_id)
  have 2: "toLowerCase s = s" using chars by (rule toLowerCase_id)
  have 3: "replace_whitespace s = s"
    using ws by (simp add: replace_whitespace_def replaceRuns_id)
  have 4: "remove_nonword s = s"
    using wd by (simp add: remove_nonword_filter)
  have 5: "collapse_hyphens s = s" using nodbl by (rule collapse_id)
  have 6: "strip_leading_hyphens s = s" using nohd by (rule strip_leading_id)
  have 7: "strip_trailing_hyphens s = s" using nolast by (rule strip_trailing_id)
  show ?thesis by (simp add: slug_chain_def 1 2 3 4 5 6 7)
qed

lemma slug_chain_idem: "slug_chain (slug_chain s) = slug_chain s"
  by (rule slug_chain_fixed)
     (auto simp: slug_chain_chars slug_chain_no_double slug_chain_ends)

subsection \<open>The claims about the slug generator\<close>

text \<open>
  Claim C6. The four examples of the specification: the empty string gives the empty
  slug, \<^verbatim>\<open>"  Hello World!  "\<close> gives \<^verbatim>\<open>"hello-world"\<close>, \<^verbatim>\<open>"A--B"\<close> gives
  \<^verbatim>\<open>"a-b"\<close> and \<^verbatim>\<open>"-lead-trail-"\<close> gives \<^verbatim>\<open>"lead-trail"\<close>.
\<close>

theorem slugify_examples:
  "slugify (JStr (lit '''')) = lit '''' \<and>
   slugify (JStr (lit ''  Hello World!  '')) = lit ''hello-world'' \<and>
   slugify (JStr (lit ''A--B'')) = lit ''a-b'' \<and>
   slugify (JStr (lit ''-lead-trail-'')) = lit ''lead-trail''"
  by (simp add: slug_defs)

text \<open>
  Claim C2. For every input, \<open>slugify\<close> is the algorithm of the specification: the empty
  string for a falsy input (\<open>undefined\<close>, \<open>null\<close>, the empty string), and otherwise the
  seven steps in their order (trim, lower case, one hyphen for each run of white space,
  removal of every character that is neither a word character nor a hyphen, one hyphen
  for each run of two or more, no leading hyphen, no trailing hyphen). The result is
  URL-safe and lower case: each of its characters is a lower-case letter, a digit, an
  underscore or a hyphen.
\<close>

theorem slugify_refines_spec:
  "slugify str = slugify_spec str \<and>
   (falsy str \<longrightarrow> slugify str = []) \<and>
   (\<forall>c \<in> set (slugify str). is_slug_char c)"
proof (intro conjI)
  show "slugify str = slugify_spec str"
    by (cases str) (simp_all add: slugify_def slugify_spec_def slug_chain_spec)
  show "falsy str \<longrightarrow> slugify str = []"
    by (simp add: slugify_def)
  show "\<forall>c \<in> set (slugify str). is_slug_char c"
    by (cases str) (auto simp: slugify_def slug_chain_chars)
qed

theorem slugify_refines_spec_witness:
  "falsy JNull \<and> slugify JNull = [] \<and> slugify JNull = slugify_spec JNull \<and>
   slugify (JStr (lit ''A b'')) = slugify_spec (JStr (lit ''A b'')) \<and>
   0x61 \<in> set (slugify (JStr (lit ''A b''))) \<and> is_slug_char 0x61"
proof -
  have mem: "0x61 \<in> set (slugify (JStr (lit ''A b'')))"
    by (simp add: slug_defs)
  have f: "falsy JNull"
    by simp
  show ?thesis
    using slugify_refines_spec [of JNull] slugify_refines_spec [of "JStr (lit ''A b'')"] mem f
    by blast
qed

text \<open>
  Claim C7. \<open>slugify\<close> is idempotent: the slug of a slug is that slug, for every input.
\<close>

theorem slugify_idempotent: "slugify (JStr (slugify x)) = slugify x"
proof (cases x)
  case (JStr s)
  then show ?thesis
    by (cases "slug_chain s = []") (simp_all add: slugify_def slug_chain_idem)
qed (simp_all add: slugify_def)

text \<open>
  Claim C9. For every input, the output of \<open>slugify\<close> consists of lower-case letters,
  digits, underscores and hyphens only (so it holds no white space and no upper-case
  letter), has no two hyphens in a row, and neither begins nor ends with a hyphen.
\<close>

theorem slugify_output_shape:
  "(\<forall>c \<in> set (slugify str). is_slug_char c \<and> \<not> isWhiteSpace c \<and> \<not> isUpper c) \<and>
   \<not> sublist [hyphen, hyphen] (slugify str) \<and>
   \<not> prefix [hyphen] (slugify str) \<and>
   \<not> suffix [hyphen] (slugify str)"
proof (cases "\<exists>s. str = JStr s \<and> s \<noteq> []")
  case True
  then obtain s where "slugify str = slug_chain s"
    by (auto simp: slugify_def)
  then show ?thesis
    using slug_chain_chars [of _ s] slug_chain_no_double [of s] slug_chain_ends [of s]
    by (auto dest: slug_char_not_space slug_char_not_upper)
next
  case False
  then have "slugify str = []"
    by (cases str) (auto simp: slugify_def)
  then show ?thesis by simp
qed

theorem slugify_output_shape_witness:
  "0x2D \<in> set (slugify (JStr (lit '' -A  b!_- ''))) \<and>
   is_slug_char 0x2D \<and> \<not> isWhiteSpace 0x2D \<and> \<not> isUpper 0x2D \<and>
   \<not> sublist [hyphen, hyphen] (slugify (JStr (lit '' -A  b!_- ''))) \<and>
   \<not> prefix [hyphen] (slugify (JStr (lit '' -A  b!_- ''))) \<and>
   \<not> suffix [hyphen] (slugify (JStr (lit '' -A  b!_- '')))"
proof -
  have mem: "0x2D \<in> set (slugify (JStr (lit '' -A  b!_- '')))"
    by (simp add: slug_defs)
  show ?thesis
    using slugify_output_shape [of "JStr (lit '' -A  b!_- '')"] mem by blast
qed

section \<open>Properties of the handlers and the middleware\<close>

subsection \<open>What a query and a handler leave unchanged\<close>

lemmas handler_defs = list_handler_def create_handler_def update_handler_def
  delete_handler_def route_handler_def

lemmas request_defs = handle_request_def db_middleware_def connectToDB_def
  disconnectFromDB_def

lemma table_set_table: "table r' (set_table r rs w) = (if r' = r then rs else table r' w)"
  by (cases r; cases r') simp_all

lemma set_table_frame:
  "live (set_table r rs w) = live w" "fresh (set_table r rs w) = fresh w"
  "trace (set_table r rs w) = trace w"
  by (cases r; simp)+

lemma exec_frame:
  "live (snd (exec st t w)) = live w \<and> fresh (snd (exec st t w)) = fresh w \<and>
   trace (snd (exec st t w)) = trace w"
  by (cases st) (simp_all add: set_table_frame Let_def)

lemma table_trace_update [simp]: "table r (w\<lparr>trace := x\<rparr>) = table r w"
  by (cases r) simp_all

lemma table_live_update [simp]: "table r (w\<lparr>live := x\<rparr>) = table r w"
  by (cases r) simp_all

lemma table_fresh_update [simp]: "table r (w\<lparr>fresh := x\<rparr>) = table r w"
  by (cases r) simp_all

text \<open>What one query does to the connections and the log.\<close>

lemma query_frame:
  assumes "query (Some k) e st w = (res, w')"
  shows "live w' = live w \<and> fresh w' = fresh w \<and>
         (trace w' = trace w \<or> trace w' = trace w @ [Queried k st])"
  using assms exec_frame [of st "now e" "w\<lparr>trace := trace w @ [Queried k st]\<rparr>"]
  by (auto simp: query_def Let_def split: if_splits option.splits prod.splits)

lemma handler_frame:
  assumes "route_handler rq c e w = (res, w')" and "dbClient c = Some k"
  shows "live w' = live w \<and> fresh w' = fresh w \<and>
         (trace w' = trace w \<or> (\<exists>st. trace w' = trace w @ [Queried k st]))"
proof (cases "route rq")
  case (GetAll r)
  with assms show ?thesis
    by (auto simp: handler_defs split: prod.splits sum.splits dest!: query_frame)
next
  case (Create r)
  with assms show ?thesis
    by (auto simp: handler_defs split: prod.splits sum.splits if_splits dest!: query_frame)
next
  case (Update r sl)
  with assms show ?thesis
    by (auto simp: handler_defs split: prod.splits sum.splits if_splits dest!: query_frame)
next
  case (Delete r sl)
  with assms show ?thesis
    by (auto simp: handler_defs split: prod.splits sum.splits if_splits dest!: query_frame)
next
  case Unrouted
  with assms show ?thesis
    by (auto simp: handler_defs)
qed

lemma request_connect_failed:
  "connect_error e = Some err \<Longrightarrow> handle_request rq e w = (Inl err, w)"
  by (simp add: request_defs)

lemma request_connected:
  assumes "connect_error e = None"
  shows "\<exists>res w2.
    route_handler rq \<lparr>dbClient = Some (fresh w)\<rparr> e
      (w\<lparr>live := fresh w # live w, fresh := Suc (fresh w),
         trace := trace w @ [Connected (fresh w)]\<rparr>) = (res, w2) \<and>
    handle_request rq e w = (Inr res, disconnectFromDB (fresh w) w2)"
  using assms by (simp add: handle_request_def db_middleware_def connectToDB_def split: prod.splits)

lemma query_live:
  "k \<in> set (live w) \<Longrightarrow>
   query (Some k) e st w =
     (case query_error e of
        Some err \<Rightarrow> (Inl err, w\<lparr>trace := trace w @ [Queried k st]\<rparr>)
      | None \<Rightarrow> (Inr (fst (exec st (now e) (w\<lparr>trace := trace w @ [Queried k st]\<rparr>))),
                 snd (exec st (now e) (w\<lparr>trace := trace w @ [Queried k st]\<rparr>))))"
  by (simp add: query_def Let_def split: option.splits prod.splits)

lemma query_trace:
  "k \<in> set (live w) \<Longrightarrow> trace (snd (query (Some k) e st w)) = trace w @ [Queried k st]"
  using exec_frame [of st "now e" "w\<lparr>trace := trace w @ [Queried k st]\<rparr>"]
  by (simp add: query_live split: option.splits)

lemma list_trace:
  assumes "dbClient c = Some k" and "k \<in> set (live w)"
  shows "trace (snd (list_handler r c e w)) = trace w @ [Queried k (SelectAll r)]"
proof (cases "query (Some k) e (SelectAll r) w")
  case (Pair res w1)
  with query_trace [OF assms(2), of e "SelectAll r"] assms(1) show ?thesis
    by (cases res) (simp_all add: list_handler_def)
qed

lemma delete_trace:
  assumes "dbClient c = Some k" and "k \<in> set (live w)"
  shows "trace (snd (delete_handler r c sl e w)) = trace w @ [Queried k (DeleteRow r sl)]"
proof (cases "query (Some k) e (DeleteRow r sl) w")
  case (Pair res w1)
  with query_trace [OF assms(2), of e "DeleteRow r sl"] assms(1) show ?thesis
    by (cases res) (simp_all add: delete_handler_def)
qed

lemma create_trace:
  assumes "dbClient c = Some k" and "k \<in> set (live w)"
  shows "trace (snd (create_handler r c (Inr (ti, co)) e w))
           = trace w @ [Queried k (InsertRow r (slugify ti) ti co)]"
proof (cases "query (Some k) e (InsertRow r (slugify ti) ti co) w")
  case (Pair res w1)
  with query_trace [OF assms(2), of e "InsertRow r (slugify ti) ti co"] assms(1) show ?thesis
    by (cases res) (simp_all add: create_handler_def)
qed

lemma update_trace:
  assumes "dbClient c = Some k" and "k \<in> set (live w)"
  shows "trace (snd (update_handler r c sl (Inr (ti, co)) e w))
           = trace w @ [Queried k (UpdateRow r ti co sl)]"
proof (cases "query (Some k) e (UpdateRow r ti co sl) w")
  case (Pair res w1)
  with query_trace [OF assms(2), of e "UpdateRow r ti co sl"] assms(1) show ?thesis
    by (cases res) (simp_all add: update_handler_def)
qed

lemma handler_trace:
  assumes "dbClient c = Some k" and "k \<in> set (live w)"
  shows "(route rq = GetAll r \<longrightarrow>
            trace (snd (route_handler rq c e w)) = trace w @ [Queried k (SelectAll r)]) \<and>
         (route rq = Delete r sl \<longrightarrow>
            trace (snd (route_handler rq c e w)) = trace w @ [Queried k (DeleteRow r sl)]) \<and>
         (route rq = Create r \<and> body rq = Inr (ti, co) \<longrightarrow>
            trace (snd (route_handler rq c e w))
              = trace w @ [Queried k (InsertRow r (slugify ti) ti co)]) \<and>
         (route rq = Update r sl \<and> body rq = Inr (ti, co) \<longrightarrow>
            trace (snd (route_handler rq c e w))
              = trace w @ [Queried k (UpdateRow r ti co sl)])"
  using assms
  by (simp add: route_handler_def list_trace delete_trace create_trace update_trace)

subsection \<open>The handlers on a live connection\<close>

lemma table_disconnect [simp]: "table r (disconnectFromDB k w) = table r w"
  by (simp add: disconnectFromDB_def)

lemma live_set_table [simp]: "live (set_table r rs w) = live w"
  by (cases r) simp_all

lemma trace_set_table [simp]: "trace (set_table r rs w) = trace w"
  by (cases r) simp_all

lemma fresh_set_table [simp]: "fresh (set_table r rs w) = fresh w"
  by (cases r) simp_all

lemma request_eval:
  "connect_error e = None \<Longrightarrow>
   handle_request rq e w =
     (Inr (fst (route_handler rq \<lparr>dbClient = Some (fresh w)\<rparr> e
             (w\<lparr>live := fresh w # live w, fresh := Suc (fresh w),
                trace := trace w @ [Connected (fresh w)]\<rparr>))),
      disconnectFromDB (fresh w)
        (snd (route_handler rq \<lparr>dbClient = Some (fresh w)\<rparr> e
             (w\<lparr>live := fresh w # live w, fresh := Suc (fresh w),
                trace := trace w @ [Connected (fresh w)]\<rparr>))))"
  by (simp add: request_defs split: prod.splits)

text \<open>The handlers on a live connection, by what the query does.\<close>

lemma list_handler_ok:
  assumes "dbClient c = Some k" "k \<in> set (live w)" "query_error e = None"
  shows "fst (list_handler r c e w) = Json (JRows (rev (sort_key created_date (table r w)))) 200"
    and "table r' (snd (list_handler r c e w)) = table r' w"
  using assms by (simp_all add: list_handler_def query_live)

lemma list_handler_failed:
  assumes "dbClient c = Some k" "k \<in> set (live w)" "query_error e = Some err"
  shows "fst (list_handler r c e w) = StatusOnly 500"
    and "table r' (snd (list_handler r c e w)) = table r' w"
  using assms by (simp_all add: list_handler_def query_live)

lemma create_handler_ok:
  assumes "dbClient c = Some k" "k \<in> set (live w)" "query_error e = None"
  shows "fst (create_handler r c (Inr (ti, co)) e w) =
           Json (JRow \<lparr>slug = slugify ti, title = prepareValue ti, content = prepareValue co,
                       created_date = now e\<rparr>) 201"
    and "table r' (snd (create_handler r c (Inr (ti, co)) e w)) =
           (if r' = r
            then table r w @ [\<lparr>slug = slugify ti, title = prepareValue ti,
                               content = prepareValue co, created_date = now e\<rparr>]
            else table r' w)"
  using assms by (simp_all add: create_handler_def query_live Let_def table_set_table)

lemma create_handler_failed:
  assumes "dbClient c = Some k" "k \<in> set (live w)" "query_error e = Some err"
  shows "fst (create_handler r c (Inr (ti, co)) e w) = StatusOnly 500"
    and "table r' (snd (create_handler r c (Inr (ti, co)) e w)) = table r' w"
  using assms by (simp_all add: create_handler_def query_live)

lemma create_handler_malformed:
  shows "create_handler r c (Inl err) e w = (StatusOnly 500, w)"
  by (simp add: create_handler_def)

lemma filter_overwrite:
  "filter (\<lambda>x. slug x = sl) (map (overwrite ti co sl) rs)
     = map (overwrite ti co sl) (filter (\<lambda>x. slug x = sl) rs)"
  by (induction rs) auto

lemma update_handler_ok:
  assumes "dbClient c = Some k" "k \<in> set (live w)" "query_error e = None"
  shows "fst (update_handler r c sl (Inr (ti, co)) e w) =
           (if filter (\<lambda>x. slug x = sl) (table r w) = [] then not_found r
            else Json (first_row (map (overwrite ti co sl)
                   (filter (\<lambda>x. slug x = sl) (table r w)))) 201)"
    and "table r' (snd (update_handler r c sl (Inr (ti, co)) e w)) =
           (if r' = r then map (overwrite ti co sl) (table r w) else table r' w)"
  using assms
  by (simp_all add: update_handler_def query_live Let_def table_set_table filter_overwrite)

lemma update_handler_failed:
  assumes "dbClient c = Some k" "k \<in> set (live w)" "query_error e = Some err"
  shows "fst (update_handler r c sl (Inr (ti, co)) e w) = update_failed r err"
    and "table r' (snd (update_handler r c sl (Inr (ti, co)) e w)) = table r' w"
  using assms by (simp_all add: update_handler_def query_live)

lemma update_handler_malformed:
  "update_handler r c sl (Inl err) e w = (update_failed r err, w)"
  by (simp add: update_handler_def)

lemma delete_handler_ok:
  assumes "dbClient c = Some k" "k \<in> set (live w)" "query_error e = None"
  shows "fst (delete_handler r c sl e w) =
           (if filter (\<lambda>x. slug x = sl) (table r w) = [] then not_found r else deleted r sl)"
    and "table r' (snd (delete_handler r c sl e w)) =
           (if r' = r then filter (\<lambda>x. slug x \<noteq> sl) (table r w) else table r' w)"
  using assms
  by (simp_all add: delete_handler_def query_live Let_def table_set_table)

lemma delete_handler_failed:
  assumes "dbClient c = Some k" "k \<in> set (live w)" "query_error e = Some err"
  shows "fst (delete_handler r c sl e w) = delete_failed r err"
    and "table r' (snd (delete_handler r c sl e w)) = table r' w"
  using assms by (simp_all add: delete_handler_def query_live)

lemmas handler_ok = list_handler_ok create_handler_ok update_handler_ok delete_handler_ok
lemmas handler_failed = list_handler_failed create_handler_failed update_handler_failed
  delete_handler_failed

lemma overwrite_none:
  "sl \<notin> slug ` set rs \<Longrightarrow> map (overwrite ti co sl) rs = rs"
  by (induction rs) auto

lemma filter_none: "sl \<notin> slug ` set rs \<Longrightarrow> filter (\<lambda>x. slug x = sl) rs = []"
  by (induction rs) auto

lemma filter_some: "sl \<in> slug ` set rs \<Longrightarrow> filter (\<lambda>x. slug x = sl) rs \<noteq> []"
  by (induction rs) auto

lemma update_missing_tables:
  assumes "sl \<notin> slug ` set (table r w)"
  shows "table r' (snd (handle_request \<lparr>route = Update r sl, body = b\<rparr> e w)) = table r' w"
proof (cases "connect_error e")
  case (Some err)
  then show ?thesis by (simp add: request_connect_failed)
next
  case None
  show ?thesis
  proof (cases b)
    case (Inl err)
    with None show ?thesis
      by (simp add: request_eval route_handler_def update_handler_malformed)
  next
    case (Inr p)
    obtain ti co where p: "p = (ti, co)" by (cases p)
    show ?thesis
    proof (cases "query_error e")
      case qn: None
      with None Inr p assms show ?thesis
        by (simp add: request_eval route_handler_def handler_ok overwrite_none)
    next
      case (Some err)
      with None Inr p show ?thesis
        by (simp add: request_eval route_handler_def handler_failed)
    qed
  qed
qed

lemma response_ignores_stack:
  "fst (handle_request rq (e\<lparr>query_error := Some (err\<lparr>stack := s\<rparr>)\<rparr>) w)
     = fst (handle_request rq (e\<lparr>query_error := Some err\<rparr>) w)"
proof (cases "connect_error e")
  case (Some x)
  then show ?thesis by (simp add: request_connect_failed)
next
  case None
  show ?thesis
  proof (cases "route rq")
    case (GetAll r)
    with None show ?thesis
      by (simp add: request_eval route_handler_def handler_failed)
  next
    case (Create r)
    with None show ?thesis
      by (cases "body rq")
         (auto simp: request_eval route_handler_def handler_failed create_handler_malformed)
  next
    case (Update r sl)
    with None show ?thesis
      by (cases "body rq")
         (auto simp: request_eval route_handler_def handler_failed update_handler_malformed
            update_failed_def)
  next
    case (Delete r sl)
    with None show ?thesis
      by (simp add: request_eval route_handler_def handler_failed delete_failed_def)
  next
    case Unrouted
    with None show ?thesis
      by (simp add: request_eval route_handler_def)
  qed
qed

lemma update_tables:
  assumes "connect_error e = None" and "query_error e = None"
  shows "table r' (snd (handle_request \<lparr>route = Update r sl, body = Inr (ti, co)\<rparr> e w))
           = (if r' = r then map (overwrite ti co sl) (table r w) else table r' w)"
  using assms by (simp add: request_eval route_handler_def handler_ok)

lemma map_slug_overwrite: "map slug (map (overwrite ti co sl) rs) = map slug rs"
  by (induction rs) auto

lemma map_date_overwrite: "map created_date (map (overwrite ti co sl) rs) = map created_date rs"
  by (induction rs) auto

lemma update_columns:
  "map slug (table r' (snd (handle_request \<lparr>route = Update r sl, body = b\<rparr> e w)))
     = map slug (table r' w) \<and>
   map created_date (table r' (snd (handle_request \<lparr>route = Update r sl, body = b\<rparr> e w)))
     = map created_date (table r' w)"
proof (cases "connect_error e")
  case (Some err)
  then show ?thesis by (simp add: request_connect_failed)
next
  case None
  show ?thesis
  proof (cases b)
    case (Inl err)
    with None show ?thesis
      by (simp add: request_eval route_handler_def update_handler_malformed)
  next
    case (Inr p)
    obtain ti co where p: "p = (ti, co)" by (cases p)
    show ?thesis
    proof (cases "query_error e")
      case qn: None
      with None Inr p show ?thesis
        by (simp add: update_tables map_slug_overwrite map_date_overwrite)
    next
      case (Some err)
      with None Inr p show ?thesis
        by (simp add: request_eval route_handler_def handler_failed)
    qed
  qed
qed

lemma delete_tables:
  assumes "connect_error e = None" and "query_error e = None"
  shows "table r' (snd (handle_request \<lparr>route = Delete r sl, body = b\<rparr> e w))
           = (if r' = r then filter (\<lambda>x. slug x \<noteq> sl) (table r w) else table r' w)"
  using assms by (simp add: request_eval route_handler_def handler_ok)

lemma list_response:
  assumes "connect_error e = None" and "query_error e = None"
  shows "fst (handle_request \<lparr>route = GetAll r, body = b\<rparr> e w)
           = Inr (Json (JRows (rev (sort_key created_date (table r w)))) 200)"
  using assms by (simp add: request_eval route_handler_def handler_ok)

lemma slugify_falsy: "falsy ti \<Longrightarrow> slugify ti = []"
  by (simp add: slugify_def)

lemmas eval_defs = handle_request_def db_middleware_def connectToDB_def
  disconnectFromDB_def route_handler_def list_handler_def create_handler_def
  update_handler_def delete_handler_def query_def Let_def not_found_def deleted_def
  update_failed_def delete_failed_def initial_world_def example_world_def no_faults_def
  lit_def

subsection \<open>The claims about the handlers and the middleware\<close>

text \<open>
  Claim C1. For every request that reaches it, the middleware opens one new connection
  before the handler runs; the handler finds that connection in the context and sends
  its statement on it; and the middleware ends the connection after the handler is done,
  whichever way the handler went (a result, no row, a query that threw, a body that did
  not parse, no route). The log of a request is therefore the connection, at most one
  statement on it, and its end; the connection is not open afterwards and no other
  connection is touched. When the connection cannot be opened, no handler runs and
  nothing has changed. A process that starts with no open connection has none after any
  sequence of requests.
\<close>

theorem connection_lifecycle:
  "(connect_error e = None \<longrightarrow>
      (\<exists>res w' qs. handle_request rq e w = (Inr res, w') \<and>
         trace w' = trace w @ [Connected (fresh w)] @ qs @ [Ended (fresh w)] \<and>
         (\<forall>ev \<in> set qs. \<exists>st. ev = Queried (fresh w) st) \<and>
         (\<forall>r. route rq = GetAll r \<longrightarrow> qs = [Queried (fresh w) (SelectAll r)]) \<and>
         (\<forall>r sl. route rq = Delete r sl \<longrightarrow> qs = [Queried (fresh w) (DeleteRow r sl)]) \<and>
         (\<forall>r ti co. route rq = Create r \<and> body rq = Inr (ti, co) \<longrightarrow>
            qs = [Queried (fresh w) (InsertRow r (slugify ti) ti co)]) \<and>
         (\<forall>r sl ti co. route rq = Update r sl \<and> body rq = Inr (ti, co) \<longrightarrow>
            qs = [Queried (fresh w) (UpdateRow r ti co sl)]) \<and>
         fresh w \<notin> set (live w') \<and>
         set (live w') = set (live w) - {fresh w})) \<and>
   (\<forall>err. connect_error e = Some err \<longrightarrow> handle_request rq e w = (Inl err, w)) \<and>
   (live w = [] \<longrightarrow> live (serve_all rs w) = [])"
proof (intro conjI impI allI)
  assume ok: "connect_error e = None"
  let ?k = "fresh w"
  let ?c = "\<lparr>dbClient = Some ?k\<rparr>"
  let ?w1 = "w\<lparr>live := ?k # live w, fresh := Suc ?k, trace := trace w @ [Connected ?k]\<rparr>"
  from request_connected [OF ok, of rq w] obtain res w2 where
    h: "route_handler rq ?c e ?w1 = (res, w2)" and
    r: "handle_request rq e w = (Inr res, disconnectFromDB ?k w2)"
    by blast
  have c: "dbClient ?c = Some ?k" by simp
  have l: "?k \<in> set (live ?w1)" by simp
  from handler_frame [OF h c] obtain qs where
    fr: "live w2 = live ?w1" "fresh w2 = fresh ?w1" and
    tr: "trace w2 = trace ?w1 @ qs" and
    qs: "qs = [] \<or> (\<exists>st. qs = [Queried ?k st])"
    by auto
  have w2: "snd (route_handler rq ?c e ?w1) = w2"
    using h by simp
  have ht: "(route rq = GetAll r \<longrightarrow> qs = [Queried ?k (SelectAll r)]) \<and>
         (route rq = Delete r sl \<longrightarrow> qs = [Queried ?k (DeleteRow r sl)]) \<and>
         (route rq = Create r \<and> body rq = Inr (ti, co) \<longrightarrow>
            qs = [Queried ?k (InsertRow r (slugify ti) ti co)]) \<and>
         (route rq = Update r sl \<and> body rq = Inr (ti, co) \<longrightarrow>
            qs = [Queried ?k (UpdateRow r ti co sl)])" for r sl ti co
    using handler_trace [OF c l, of rq r e sl ti co] by (simp add: w2 tr)
  show "\<exists>res w' qs. handle_request rq e w = (Inr res, w') \<and>
         trace w' = trace w @ [Connected (fresh w)] @ qs @ [Ended (fresh w)] \<and>
         (\<forall>ev \<in> set qs. \<exists>st. ev = Queried (fresh w) st) \<and>
         (\<forall>r. route rq = GetAll r \<longrightarrow> qs = [Queried (fresh w) (SelectAll r)]) \<and>
         (\<forall>r sl. route rq = Delete r sl \<longrightarrow> qs = [Queried (fresh w) (DeleteRow r sl)]) \<and>
         (\<forall>r ti co. route rq = Create r \<and> body rq = Inr (ti, co) \<longrightarrow>
            qs = [Queried (fresh w) (InsertRow r (slugify ti) ti co)]) \<and>
         (\<forall>r sl ti co. route rq = Update r sl \<and> body rq = Inr (ti, co) \<longrightarrow>
            qs = [Queried (fresh w) (UpdateRow r ti co sl)]) \<and>
         fresh w \<notin> set (live w') \<and>
         set (live w') = set (live w) - {fresh w}"
  proof (intro exI conjI)
    show "handle_request rq e w = (Inr res, disconnectFromDB ?k w2)" by (rule r)
    show "trace (disconnectFromDB ?k w2) = trace w @ [Connected ?k] @ qs @ [Ended ?k]"
      using tr by (simp add: disconnectFromDB_def)
    show "\<forall>ev \<in> set qs. \<exists>st. ev = Queried ?k st"
      using qs by auto
    show "\<forall>r. route rq = GetAll r \<longrightarrow> qs = [Queried ?k (SelectAll r)]"
      using ht by blast
    show "\<forall>r sl. route rq = Delete r sl \<longrightarrow> qs = [Queried ?k (DeleteRow r sl)]"
      using ht by blast
    show "\<forall>r ti co. route rq = Create r \<and> body rq = Inr (ti, co) \<longrightarrow>
            qs = [Queried ?k (InsertRow r (slugify ti) ti co)]"
      using ht by blast
    show "\<forall>r sl ti co. route rq = Update r sl \<and> body rq = Inr (ti, co) \<longrightarrow>
            qs = [Queried ?k (UpdateRow r ti co sl)]"
      using ht by blast
    show "?k \<notin> set (live (disconnectFromDB ?k w2))"
      by (simp add: disconnectFromDB_def)
    show "set (live (disconnectFromDB ?k w2)) = set (live w) - {?k}"
      using fr by (auto simp: disconnectFromDB_def)
  qed
next
  fix err assume "connect_error e = Some err"
  then show "handle_request rq e w = (Inl err, w)"
    by (rule request_connect_failed)
next
  assume "live w = []"
  then show "live (serve_all rs w) = []"
  proof (induction rs arbitrary: w)
    case Nil
    then show ?case by simp
  next
    case (Cons a rs)
    obtain rq' e' where a: "a = (rq', e')" by (cases a)
    have "live (snd (handle_request rq' e' w)) = []"
    proof (cases "connect_error e'")
      case None
      from request_connected [OF None, of rq' w] obtain res w2 where
        h: "route_handler rq' \<lparr>dbClient = Some (fresh w)\<rparr> e'
              (w\<lparr>live := fresh w # live w, fresh := Suc (fresh w),
                 trace := trace w @ [Connected (fresh w)]\<rparr>) = (res, w2)" and
        r: "handle_request rq' e' w = (Inr res, disconnectFromDB (fresh w) w2)"
        by blast
      from handler_frame [OF h] have "live w2 = [fresh w]"
        using Cons.prems by simp
      with r show ?thesis by (simp add: disconnectFromDB_def)
    next
      case (Some err)
      with Cons.prems show ?thesis by (simp add: request_connect_failed)
    qed
    then show ?case using a Cons.IH by simp
  qed
qed

theorem connection_lifecycle_witness:
  "connect_error (no_faults 7) = None \<and>
   live initial_world = [] \<and>
   handle_request \<lparr>route = GetAll Posts, body = Inr (JUndefined, JUndefined)\<rparr> (no_faults 7)
       initial_world
     = (Inr (Json (JRows []) 200),
        initial_world\<lparr>fresh := 1,
          trace := [Connected 0, Queried 0 (SelectAll Posts), Ended 0]\<rparr>) \<and>
   handle_request \<lparr>route = Delete Drafts (lit ''a''), body = Inr (JUndefined, JUndefined)\<rparr>
       \<lparr>connect_error = Some \<lparr>message = lit ''refused'', stack = []\<rparr>,
        query_error = None, now = 7\<rparr> initial_world
     = (Inl \<lparr>message = lit ''refused'', stack = []\<rparr>, initial_world) \<and>
   live (serve_all
     [(\<lparr>route = GetAll Posts, body = Inr (JUndefined, JUndefined)\<rparr>, no_faults 7),
      (\<lparr>route = Delete Posts (lit ''a''), body = Inr (JUndefined, JUndefined)\<rparr>,
       \<lparr>connect_error = None, query_error = Some \<lparr>message = lit ''lost'', stack = []\<rparr>,
        now = 8\<rparr>)] initial_world) = []"
  using connection_lifecycle
    [where e = "no_faults 7" and w = initial_world
       and rq = "\<lparr>route = GetAll Posts, body = Inr (JUndefined, JUndefined)\<rparr>"
       and rs = "[(\<lparr>route = GetAll Posts, body = Inr (JUndefined, JUndefined)\<rparr>, no_faults 7),
          (\<lparr>route = Delete Posts (lit ''a''), body = Inr (JUndefined, JUndefined)\<rparr>,
           \<lparr>connect_error = None, query_error = Some \<lparr>message = lit ''lost'', stack = []\<rparr>,
            now = 8\<rparr>)]"]
  by (simp add: eval_defs)

text \<open>
  Claim C3. A \<^verbatim>\<open>PUT\<close> on a slug that no row of the table has changes no row of
  either table, whatever else happens; and when the connection opens, the body parses
  and the statement runs, the answer is 404 with \<^verbatim>\<open>{error: "Post not found"}\<close>, or
  \<^verbatim>\<open>{error: "Draft not found"}\<close> for the drafts.
\<close>

theorem update_missing_slug:
  assumes "sl \<notin> slug ` set (table r w)"
  shows "posts (snd (handle_request \<lparr>route = Update r sl, body = b\<rparr> e w)) = posts w \<and>
         drafts (snd (handle_request \<lparr>route = Update r sl, body = b\<rparr> e w)) = drafts w \<and>
         (connect_error e = None \<and> query_error e = None \<and> b = Inr (ti, co) \<longrightarrow>
            fst (handle_request \<lparr>route = Update r sl, body = b\<rparr> e w) =
              Inr (Json (JObject [(''error'',
                lit (case r of Posts \<Rightarrow> ''Post not found'' | Drafts \<Rightarrow> ''Draft not found''))])
                404))"
proof (intro conjI impI)
  show "posts (snd (handle_request \<lparr>route = Update r sl, body = b\<rparr> e w)) = posts w"
    using update_missing_tables [OF assms, of Posts] by simp
  show "drafts (snd (handle_request \<lparr>route = Update r sl, body = b\<rparr> e w)) = drafts w"
    using update_missing_tables [OF assms, of Drafts] by simp
next
  assume "connect_error e = None \<and> query_error e = None \<and> b = Inr (ti, co)"
  with assms show "fst (handle_request \<lparr>route = Update r sl, body = b\<rparr> e w) =
      Inr (Json (JObject [(''error'',
        lit (case r of Posts \<Rightarrow> ''Post not found'' | Drafts \<Rightarrow> ''Draft not found''))]) 404)"
    by (cases r)
       (simp_all add: request_eval route_handler_def handler_ok filter_none not_found_def)
qed

theorem update_missing_slug_witness:
  "lit ''zz'' \<notin> slug ` set (table Posts example_world) \<and>
   lit ''zz'' \<notin> slug ` set (table Drafts example_world) \<and>
   connect_error (no_faults 5) = None \<and> query_error (no_faults 5) = None \<and>
   handle_request
       \<lparr>route = Update Posts (lit ''zz''), body = Inr (JStr (lit ''T''), JStr (lit ''c''))\<rparr>
       (no_faults 5) example_world
     = (Inr (Json (JObject [(''error'', lit ''Post not found'')]) 404),
        example_world\<lparr>fresh := 1,
          trace := [Connected 0,
                    Queried 0 (UpdateRow Posts (JStr (lit ''T'')) (JStr (lit ''c'')) (lit ''zz'')),
                    Ended 0]\<rparr>) \<and>
   fst (handle_request
       \<lparr>route = Update Drafts (lit ''zz''), body = Inr (JStr (lit ''T''), JStr (lit ''c''))\<rparr>
       (no_faults 5) example_world)
     = Inr (Json (JObject [(''error'', lit ''Draft not found'')]) 404)"
  using update_missing_slug
    [where sl = "lit ''zz''" and r = Posts and w = example_world and e = "no_faults 5"
       and b = "Inr (JStr (lit ''T''), JStr (lit ''c''))"
       and ti = "JStr (lit ''T'')" and co = "JStr (lit ''c'')"]
  by (simp add: eval_defs)

text \<open>
  Claim C4. When the query throws, the list and create handlers set the status 500 and
  return no body at all; the update and delete handlers answer 500 with a JSON object of
  two fields, a fixed \<open>error\<close> text and \<open>message\<close>, the message of the error thrown.
  Nothing else of the error reaches a response: the response to any request is the
  same whatever the rest of the error object (\<open>stack\<close>) holds.
\<close>

theorem query_failure_responses:
  assumes "connect_error e = None" and "query_error e = Some err"
  shows "fst (handle_request \<lparr>route = GetAll r, body = b\<rparr> e w) = Inr (StatusOnly 500) \<and>
         fst (handle_request \<lparr>route = Create r, body = Inr (ti, co)\<rparr> e w)
           = Inr (StatusOnly 500) \<and>
         fst (handle_request \<lparr>route = Update r sl, body = Inr (ti, co)\<rparr> e w)
           = Inr (Json (JObject [(''error'', lit (''Failed to update '' @ label r)),
                                 (''message'', message err)]) 500) \<and>
         fst (handle_request \<lparr>route = Delete r sl, body = b\<rparr> e w)
           = Inr (Json (JObject [(''error'', lit (''Failed to delete '' @ label r)),
                                 (''message'', message err)]) 500) \<and>
         fst (handle_request rq (e\<lparr>query_error := Some (err\<lparr>stack := s\<rparr>)\<rparr>) w)
           = fst (handle_request rq e w)"
proof -
  have "e\<lparr>query_error := Some err\<rparr> = e"
    using assms(2) by simp
  then have "fst (handle_request rq (e\<lparr>query_error := Some (err\<lparr>stack := s\<rparr>)\<rparr>) w)
           = fst (handle_request rq e w)"
    using response_ignores_stack [where rq = rq and e = e and err = err and s = s and w = w]
    by simp
  then show ?thesis
    using assms
    by (simp add: request_eval route_handler_def handler_failed update_failed_def
        delete_failed_def)
qed

theorem query_failure_responses_witness:
  "connect_error \<lparr>connect_error = None,
      query_error = Some \<lparr>message = lit ''boom'', stack = lit ''at x''\<rparr>, now = 3\<rparr> = None \<and>
   fst (handle_request \<lparr>route = GetAll Posts, body = Inr (JUndefined, JUndefined)\<rparr>
      \<lparr>connect_error = None,
       query_error = Some \<lparr>message = lit ''boom'', stack = lit ''at x''\<rparr>, now = 3\<rparr>
      example_world) = Inr (StatusOnly 500) \<and>
   fst (handle_request \<lparr>route = Create Posts, body = Inr (JStr (lit ''T''), JNull)\<rparr>
      \<lparr>connect_error = None,
       query_error = Some \<lparr>message = lit ''boom'', stack = lit ''at x''\<rparr>, now = 3\<rparr>
      example_world) = Inr (StatusOnly 500) \<and>
   fst (handle_request \<lparr>route = Update Posts (lit ''a''), body = Inr (JStr (lit ''T''), JNull)\<rparr>
      \<lparr>connect_error = None,
       query_error = Some \<lparr>message = lit ''boom'', stack = lit ''at x''\<rparr>, now = 3\<rparr>
      example_world)
     = Inr (Json (JObject [(''error'', lit ''Failed to update post''),
                           (''message'', lit ''boom'')]) 500) \<and>
   fst (handle_request \<lparr>route = Delete Drafts (lit ''a''), body = Inr (JUndefined, JUndefined)\<rparr>
      \<lparr>connect_error = None,
       query_error = Some \<lparr>message = lit ''boom'', stack = lit ''at x''\<rparr>, now = 3\<rparr>
      example_world)
     = Inr (Json (JObject [(''error'', lit ''Failed to delete draft''),
                           (''message'', lit ''boom'')]) 500)"
  using query_failure_responses
    [where e = "\<lparr>connect_error = None,
         query_error = Some \<lparr>message = lit ''boom'', stack = lit ''at x''\<rparr>, now = 3\<rparr>"
       and err = "\<lparr>message = lit ''boom'', stack = lit ''at x''\<rparr>" and w = example_world]
  by (simp add: eval_defs)

text \<open>
  Claim C5. A \<^verbatim>\<open>PUT\<close> that runs overwrites the title and the content of the rows whose
  slug is the path parameter and nothing else: the other rows, the other table, and the
  slug and the date of every row stay as they were; the answer is 201 with the updated
  row. The slug column is the same after any \<^verbatim>\<open>PUT\<close>, failed or not, so it is not
  recomputed from a new title.
\<close>

theorem update_keeps_slug:
  "(connect_error e = None \<and> query_error e = None \<longrightarrow>
      table r (snd (handle_request \<lparr>route = Update r sl, body = Inr (ti, co)\<rparr> e w))
        = map (\<lambda>x. if slug x = sl
                     then x\<lparr>title := prepareValue ti, content := prepareValue co\<rparr> else x)
            (table r w) \<and>
      (\<forall>r'. r' \<noteq> r \<longrightarrow>
         table r' (snd (handle_request \<lparr>route = Update r sl, body = Inr (ti, co)\<rparr> e w))
           = table r' w) \<and>
      (\<forall>x rest. filter (\<lambda>y. slug y = sl) (table r w) = x # rest \<longrightarrow>
         fst (handle_request \<lparr>route = Update r sl, body = Inr (ti, co)\<rparr> e w)
           = Inr (Json (JRow (x\<lparr>title := prepareValue ti, content := prepareValue co\<rparr>))
                   201))) \<and>
   map slug (table r' (snd (handle_request \<lparr>route = Update r sl, body = b\<rparr> e w)))
     = map slug (table r' w) \<and>
   map created_date (table r' (snd (handle_request \<lparr>route = Update r sl, body = b\<rparr> e w)))
     = map created_date (table r' w)"
proof (intro conjI impI allI)
  assume ok: "connect_error e = None \<and> query_error e = None"
  then show "table r (snd (handle_request \<lparr>route = Update r sl, body = Inr (ti, co)\<rparr> e w))
        = map (overwrite ti co sl) (table r w)"
    by (simp add: update_tables)
  fix r' assume "r' \<noteq> r"
  with ok show
    "table r' (snd (handle_request \<lparr>route = Update r sl, body = Inr (ti, co)\<rparr> e w))
       = table r' w"
    by (simp add: update_tables)
next
  fix x rest
  assume ok: "connect_error e = None \<and> query_error e = None"
    and hit: "filter (\<lambda>y. slug y = sl) (table r w) = x # rest"
  from hit have "x \<in> set (filter (\<lambda>y. slug y = sl) (table r w))"
    by simp
  then have "slug x = sl" by simp
  with ok hit show "fst (handle_request \<lparr>route = Update r sl, body = Inr (ti, co)\<rparr> e w)
           = Inr (Json (JRow (x\<lparr>title := prepareValue ti, content := prepareValue co\<rparr>)) 201)"
    by (simp add: request_eval route_handler_def handler_ok)
qed (simp_all add: update_columns)

theorem update_keeps_slug_witness:
  "connect_error (no_faults 9) = None \<and> query_error (no_faults 9) = None \<and>
   filter (\<lambda>y. slug y = lit ''a'') (table Posts example_world)
     = [\<lparr>slug = lit ''a'', title = Some (lit ''A''), content = Some (lit ''x''),
         created_date = 1\<rparr>] \<and>
   handle_request
       \<lparr>route = Update Posts (lit ''a''), body = Inr (JStr (lit ''Zed''), JStr (lit ''y''))\<rparr>
       (no_faults 9) example_world
     = (Inr (Json (JRow \<lparr>slug = lit ''a'', title = Some (lit ''Zed''),
                          content = Some (lit ''y''), created_date = 1\<rparr>) 201),
        example_world\<lparr>
          posts := [\<lparr>slug = lit ''a'', title = Some (lit ''Zed''),
                     content = Some (lit ''y''), created_date = 1\<rparr>],
          fresh := 1,
          trace := [Connected 0,
                    Queried 0 (UpdateRow Posts (JStr (lit ''Zed'')) (JStr (lit ''y''))
                      (lit ''a'')),
                    Ended 0]\<rparr>) \<and>
   slugify (JStr (lit ''Zed'')) = lit ''zed'' \<and>
   lit ''zed'' \<noteq> lit ''a''"
  using update_keeps_slug
    [where e = "no_faults 9" and w = example_world and r = Posts and sl = "lit ''a''"
       and ti = "JStr (lit ''Zed'')" and co = "JStr (lit ''y'')"]
  by (simp add: eval_defs slug_defs)

text \<open>
  Claim C8. With the connection open and the statement running, a \<^verbatim>\<open>DELETE\<close> on a
  slug that a row has answers 201 with the message
  \<^verbatim>\<open>"<Resource> with slug <slug> deleted successfully"\<close>, and on a slug that no row has
  it answers 404 with \<^verbatim>\<open>{error: "<Resource> not found"}\<close>. The table loses the rows
  of that slug and no other, the other table is untouched, and a list request after it
  returns the remaining rows, none of which has the slug.
\<close>

theorem delete_by_slug:
  assumes "connect_error e = None" and "query_error e = None"
  shows "(sl \<in> slug ` set (table r w) \<longrightarrow>
            fst (handle_request \<lparr>route = Delete r sl, body = b\<rparr> e w)
              = Inr (Json (JObject [(''message'',
                  lit (Label r @ '' with slug '') @ sl @ lit '' deleted successfully'')]) 201)) \<and>
         (sl \<notin> slug ` set (table r w) \<longrightarrow>
            fst (handle_request \<lparr>route = Delete r sl, body = b\<rparr> e w)
              = Inr (Json (JObject [(''error'', lit (Label r @ '' not found''))]) 404)) \<and>
         table r (snd (handle_request \<lparr>route = Delete r sl, body = b\<rparr> e w))
           = filter (\<lambda>x. slug x \<noteq> sl) (table r w) \<and>
         (\<forall>r'. r' \<noteq> r \<longrightarrow>
            table r' (snd (handle_request \<lparr>route = Delete r sl, body = b\<rparr> e w)) = table r' w) \<and>
         (connect_error e' = None \<and> query_error e' = None \<longrightarrow>
            (\<exists>rows.
               fst (handle_request \<lparr>route = GetAll r, body = b'\<rparr> e'
                      (snd (handle_request \<lparr>route = Delete r sl, body = b\<rparr> e w)))
                 = Inr (Json (JRows rows) 200) \<and>
               sl \<notin> slug ` set rows \<and>
               set rows = {x \<in> set (table r w). slug x \<noteq> sl}))"
proof (intro conjI impI allI)
  assume "sl \<in> slug ` set (table r w)"
  with assms show "fst (handle_request \<lparr>route = Delete r sl, body = b\<rparr> e w)
              = Inr (Json (JObject [(''message'',
                  lit (Label r @ '' with slug '') @ sl @ lit '' deleted successfully'')]) 201)"
    by (simp add: request_eval route_handler_def handler_ok filter_some deleted_def)
next
  assume "sl \<notin> slug ` set (table r w)"
  with assms show "fst (handle_request \<lparr>route = Delete r sl, body = b\<rparr> e w)
              = Inr (Json (JObject [(''error'', lit (Label r @ '' not found''))]) 404)"
    by (simp add: request_eval route_handler_def handler_ok filter_none not_found_def)
next
  show "table r (snd (handle_request \<lparr>route = Delete r sl, body = b\<rparr> e w))
           = filter (\<lambda>x. slug x \<noteq> sl) (table r w)"
    using assms by (simp add: delete_tables)
next
  fix r' assume "r' \<noteq> r"
  then show "table r' (snd (handle_request \<lparr>route = Delete r sl, body = b\<rparr> e w)) = table r' w"
    using assms by (simp add: delete_tables)
next
  assume ok': "connect_error e' = None \<and> query_error e' = None"
  let ?w' = "snd (handle_request \<lparr>route = Delete r sl, body = b\<rparr> e w)"
  let ?rows = "rev (sort_key created_date (table r ?w'))"
  have "fst (handle_request \<lparr>route = GetAll r, body = b'\<rparr> e' ?w') = Inr (Json (JRows ?rows) 200)"
    using ok' by (simp add: list_response)
  moreover have "set ?rows = {x \<in> set (table r w). slug x \<noteq> sl}"
    using assms by (auto simp: delete_tables)
  ultimately show "\<exists>rows.
      fst (handle_request \<lparr>route = GetAll r, body = b'\<rparr> e' ?w') = Inr (Json (JRows rows) 200) \<and>
      sl \<notin> slug ` set rows \<and>
      set rows = {x \<in> set (table r w). slug x \<noteq> sl}"
    by blast
qed

theorem delete_by_slug_witness:
  "connect_error (no_faults 4) = None \<and> query_error (no_faults 4) = None \<and>
   lit ''a'' \<in> slug ` set (table Posts example_world) \<and>
   lit ''zz'' \<notin> slug ` set (table Posts example_world) \<and>
   handle_request \<lparr>route = Delete Posts (lit ''a''), body = Inr (JUndefined, JUndefined)\<rparr>
       (no_faults 4) example_world
     = (Inr (Json (JObject [(''message'', lit ''Post with slug a deleted successfully'')]) 201),
        example_world\<lparr>posts := [], fresh := 1,
          trace := [Connected 0, Queried 0 (DeleteRow Posts (lit ''a'')), Ended 0]\<rparr>) \<and>
   fst (handle_request \<lparr>route = GetAll Posts, body = Inr (JUndefined, JUndefined)\<rparr>
       (no_faults 5)
       (snd (handle_request
          \<lparr>route = Delete Posts (lit ''a''), body = Inr (JUndefined, JUndefined)\<rparr>
          (no_faults 4) example_world)))
     = Inr (Json (JRows []) 200) \<and>
   fst (handle_request \<lparr>route = Delete Posts (lit ''zz''), body = Inr (JUndefined, JUndefined)\<rparr>
       (no_faults 4) example_world)
     = Inr (Json (JObject [(''error'', lit ''Post not found'')]) 404)"
  using delete_by_slug
    [where e = "no_faults 4" and w = example_world and r = Posts and sl = "lit ''a''"
       and e' = "no_faults 5"]
  by (simp add: eval_defs)

text \<open>
  Claim C10. The create handlers do not check the body: for a title that is missing,
  \<open>null\<close> or empty, \<open>slugify\<close> gives the empty string and the \<^verbatim>\<open>INSERT\<close> is sent
  with the empty slug. The answer is 201 with the inserted row when the statement runs,
  and the bare status 500 when it throws; there is no 4xx answer.
\<close>

theorem create_without_validation:
  assumes "falsy ti" and "connect_error e = None"
  shows "slugify ti = [] \<and>
         trace (snd (handle_request \<lparr>route = Create r, body = Inr (ti, co)\<rparr> e w))
           = trace w @ [Connected (fresh w), Queried (fresh w) (InsertRow r [] ti co),
                        Ended (fresh w)] \<and>
         (query_error e = None \<longrightarrow>
            fst (handle_request \<lparr>route = Create r, body = Inr (ti, co)\<rparr> e w)
              = Inr (Json (JRow \<lparr>slug = [], title = prepareValue ti,
                                  content = prepareValue co, created_date = now e\<rparr>) 201) \<and>
            table r (snd (handle_request \<lparr>route = Create r, body = Inr (ti, co)\<rparr> e w))
              = table r w @ [\<lparr>slug = [], title = prepareValue ti,
                               content = prepareValue co, created_date = now e\<rparr>]) \<and>
         (\<forall>err. query_error e = Some err \<longrightarrow>
            fst (handle_request \<lparr>route = Create r, body = Inr (ti, co)\<rparr> e w)
              = Inr (StatusOnly 500))"
proof (intro conjI impI allI)
  show s: "slugify ti = []"
    using assms(1) by (rule slugify_falsy)
  show "trace (snd (handle_request \<lparr>route = Create r, body = Inr (ti, co)\<rparr> e w))
           = trace w @ [Connected (fresh w), Queried (fresh w) (InsertRow r [] ti co),
                        Ended (fresh w)]"
    using assms(2) s
    by (simp add: request_eval route_handler_def create_trace disconnectFromDB_def)
next
  assume "query_error e = None"
  with assms show "fst (handle_request \<lparr>route = Create r, body = Inr (ti, co)\<rparr> e w)
              = Inr (Json (JRow \<lparr>slug = [], title = prepareValue ti,
                                  content = prepareValue co, created_date = now e\<rparr>) 201)"
    and "table r (snd (handle_request \<lparr>route = Create r, body = Inr (ti, co)\<rparr> e w))
              = table r w @ [\<lparr>slug = [], title = prepareValue ti,
                               content = prepareValue co, created_date = now e\<rparr>]"
    by (simp_all add: request_eval route_handler_def handler_ok slugify_falsy)
next
  fix err assume "query_error e = Some err"
  with assms show "fst (handle_request \<lparr>route = Create r, body = Inr (ti, co)\<rparr> e w)
              = Inr (StatusOnly 500)"
    by (simp add: request_eval route_handler_def handler_failed)
qed

theorem create_without_validation_witness:
  "falsy JUndefined \<and> connect_error (no_faults 6) = None \<and>
   handle_request \<lparr>route = Create Posts, body = Inr (JUndefined, JStr (lit ''c''))\<rparr>
       (no_faults 6) initial_world
     = (Inr (Json (JRow \<lparr>slug = [], title = None, content = Some (lit ''c''),
                          created_date = 6\<rparr>) 201),
        initial_world\<lparr>
          posts := [\<lparr>slug = [], title = None, content = Some (lit ''c''),
                     created_date = 6\<rparr>],
          fresh := 1,
          trace := [Connected 0,
                    Queried 0 (InsertRow Posts [] JUndefined (JStr (lit ''c''))),
                    Ended 0]\<rparr>)"
  using create_without_validation
    [where ti = JUndefined and e = "no_faults 6" and w = initial_world and r = Posts
       and co = "JStr (lit ''c'')"]
  by (simp add: eval_defs slugify_def)

end
